theory Spec2Isabelle
  imports Main
begin

section \<open>Tokens and syntax trees\<close>

text \<open>
  The token kinds and the token structure of \<^verbatim>\<open>Compiler.cpp\<close>
  (\<^verbatim>\<open>enum class TokenType\<close>, \<^verbatim>\<open>struct Token\<close>).
\<close>

datatype TokenType = Identifier | Number | String | Keyword | Symbol | Comment
  | Assign | ImmutableAssign | EndOfLine | EndOfFile

record Token =
  type :: TokenType
  lexeme :: string
  line :: int
  column :: int

text \<open>
  The node classes. The C++ code tells the kinds apart with
  \<^verbatim>\<open>dynamic_pointer_cast\<close>; here each class is a constructor. All node classes that
  the source declares are present, also those that no pass inspects.
\<close>

datatype Expression =
    NumberExpr string
  | IdentifierExpr string
  | FunctionCall string "Expression list"
  | StructInit string
  | FieldAccess Expression string
  | TernaryExpr Expression Expression Expression

datatype Statement =
    Assignment string Expression
  | FunctionDef string "string list" "Statement list"
  | IfStatement Expression "Statement list" "Statement list"
  | WhileLoop Expression "Statement list"
  | ForLoop Statement Expression Statement "Statement list"
  | StructDef string "string list"
  | EnumDef string "string list"
  | ReturnStatement "Expression option"

text \<open>
  Every failure of the source is a \<^verbatim>\<open>std::runtime_error\<close> carrying a message.
  Indexing a \<^verbatim>\<open>std::vector\<close> outside its bounds is undefined in C++; the model
  makes it a failure of its own.
\<close>

datatype error = runtime_error string | out_of_bounds

type_synonym 'a result = "error + 'a"

section \<open>Parser\<close>

text \<open>
  The parser holds a reference to the token vector and the index \<^verbatim>\<open>current\<close>.
  Each member function takes the vector and the index and returns its value together
  with the new index. Every access \<^verbatim>\<open>tokens[i]\<close> is checked against the length of
  the vector.
\<close>

definition peek :: "Token list \<Rightarrow> nat \<Rightarrow> Token result" where
  "peek tokens current =
     (if current < length tokens then Inr (tokens ! current) else Inl out_of_bounds)"

definition isAtEnd :: "Token list \<Rightarrow> nat \<Rightarrow> bool result" where
  "isAtEnd tokens current =
     (case peek tokens current of
        Inl e \<Rightarrow> Inl e
      | Inr t \<Rightarrow> Inr (type t = EndOfFile))"

definition previous :: "Token list \<Rightarrow> nat \<Rightarrow> Token result" where
  "previous tokens current =
     (if 0 < current \<and> current - 1 < length tokens
      then Inr (tokens ! (current - 1)) else Inl out_of_bounds)"

definition advance :: "Token list \<Rightarrow> nat \<Rightarrow> (Token \<times> nat) result" where
  "advance tokens current =
     (case isAtEnd tokens current of
        Inl e \<Rightarrow> Inl e
      | Inr at_end \<Rightarrow>
          (let current' = (if \<not> at_end then current + 1 else current) in
           case previous tokens current' of
             Inl e \<Rightarrow> Inl e
           | Inr t \<Rightarrow> Inr (t, current')))"

definition match :: "Token list \<Rightarrow> nat \<Rightarrow> TokenType \<Rightarrow> (bool \<times> nat) result" where
  "match tokens current ty =
     (case peek tokens current of
        Inl e \<Rightarrow> Inl e
      | Inr t \<Rightarrow>
          if type t = ty then
            (case advance tokens current of
               Inl e \<Rightarrow> Inl e
             | Inr (_, current') \<Rightarrow> Inr (True, current'))
          else Inr (False, current))"

definition parseExpression :: "Token list \<Rightarrow> nat \<Rightarrow> (Expression \<times> nat) result" where
  "parseExpression tokens current =
     (case match tokens current Number of
        Inl e \<Rightarrow> Inl e
      | Inr (True, c1) \<Rightarrow>
          (case previous tokens c1 of
             Inl e \<Rightarrow> Inl e
           | Inr t \<Rightarrow> Inr (NumberExpr (lexeme t), c1))
      | Inr (False, c1) \<Rightarrow>
          (case match tokens c1 Identifier of
             Inl e \<Rightarrow> Inl e
           | Inr (True, c2) \<Rightarrow>
               (case previous tokens c2 of
                  Inl e \<Rightarrow> Inl e
                | Inr t \<Rightarrow> Inr (IdentifierExpr (lexeme t), c2))
           | Inr (False, c2) \<Rightarrow> Inl (runtime_error ''Invalid expression'')))"

definition parseAssignment :: "Token list \<Rightarrow> nat \<Rightarrow> (Statement \<times> nat) result" where
  "parseAssignment tokens current =
     (case peek tokens current of
        Inl e \<Rightarrow> Inl e
      | Inr t \<Rightarrow>
          (let name = lexeme t in
           case advance tokens current of
             Inl e \<Rightarrow> Inl e
           | Inr (_, c1) \<Rightarrow>
               (case match tokens c1 Assign of
                  Inl e \<Rightarrow> Inl e
                | Inr (_, c2) \<Rightarrow>
                    (case parseExpression tokens c2 of
                       Inl e \<Rightarrow> Inl e
                     | Inr (expr, c3) \<Rightarrow>
                         (case match tokens c3 EndOfLine of
                            Inl e \<Rightarrow> Inl e
                          | Inr (_, c4) \<Rightarrow> Inr (Assignment name expr, c4))))))"

definition parseStatement :: "Token list \<Rightarrow> nat \<Rightarrow> (Statement \<times> nat) result" where
  "parseStatement tokens current =
     (case peek tokens current of
        Inl e \<Rightarrow> Inl e
      | Inr t \<Rightarrow>
          if type t = Identifier then
            (case peek tokens (current + 1) of
               Inl e \<Rightarrow> Inl e
             | Inr t1 \<Rightarrow>
                 if type t1 = Assign then parseAssignment tokens current
                 else Inl (runtime_error ''Unexpected statement''))
          else Inl (runtime_error ''Unexpected statement''))"

lemma parseStatement_progress:
  assumes "parseStatement tokens current = Inr (s, current')"
  shows "current < current' \<and> current < length tokens"
  using assms
  unfolding parseStatement_def parseAssignment_def parseExpression_def match_def
    advance_def previous_def isAtEnd_def peek_def Let_def
  by (auto split: if_splits sum.splits prod.splits bool.splits)

function parse_loop :: "Token list \<Rightarrow> nat \<Rightarrow> Statement list \<Rightarrow> Statement list result" where
  "parse_loop tokens current statements =
     (case isAtEnd tokens current of
        Inl e \<Rightarrow> Inl e
      | Inr True \<Rightarrow> Inr statements
      | Inr False \<Rightarrow>
          (case parseStatement tokens current of
             Inl e \<Rightarrow> Inl e
           | Inr (s, current') \<Rightarrow> parse_loop tokens current' (statements @ [s])))"
  by pat_completeness auto
termination
proof (relation "measure (\<lambda>(tokens, current, statements). length tokens - current)")
  show "wf (measure (\<lambda>(tokens, current, statements). length tokens - current))"
    by simp
next
  fix tokens :: "Token list" and current :: nat and statements :: "Statement list"
    and b x2 x y
  assume "parseStatement tokens current = Inr x2" and "(x, y) = x2"
  then have "parseStatement tokens current = Inr (x, y)" by simp
  from parseStatement_progress [OF this]
  show "((tokens, y, statements @ [x]), (tokens, current, statements))
          \<in> measure (\<lambda>(tokens, current, statements). length tokens - current)"
    by auto
qed

definition parse :: "Token list \<Rightarrow> Statement list result" where
  "parse tokens = parse_loop tokens 0 []"

section \<open>Macro engine\<close>

text \<open>
  \<^verbatim>\<open>MacroExpander\<close> keeps a table from macro names to replacement texts
  (\<^verbatim>\<open>std::unordered_map<std::string, std::string>\<close>); the code only looks keys up
  and stores them, so the table is a map. \<^verbatim>\<open>define\<close> (here \<open>define_macro\<close>) is
  \<^verbatim>\<open>macros[name] = replacement\<close>.
\<close>

type_synonym macro_table = "string \<rightharpoonup> string"

definition define_macro :: "string \<Rightarrow> string \<Rightarrow> macro_table \<Rightarrow> macro_table" where
  "define_macro name replacement macros = macros(name \<mapsto> replacement)"

definition loadDefaults :: "macro_table \<Rightarrow> macro_table" where
  "loadDefaults macros =
     define_macro ''|reset|'' ''x = 0;''
       (define_macro ''|dec|'' ''x = x - 1;''
         (define_macro ''|inc|'' ''x = x + 1;'' macros))"

text \<open>
  \<^verbatim>\<open>stream >> word\<close> on a \<^verbatim>\<open>std::istringstream\<close> skips leading white space
  (the six characters of \<^verbatim>\<open>isspace\<close> in the classic locale), then takes
  characters up to the next white space or the end of the text. It fails, and the loop of
  \<^verbatim>\<open>expand\<close> ends, when no character is left to take.
\<close>

definition isspace :: "char \<Rightarrow> bool" where
  "isspace c =
     (c = CHR '' '' \<or> c = CHR 0x09 \<or> c = CHR 0x0A \<or> c = CHR 0x0B \<or> c = CHR 0x0C
      \<or> c = CHR 0x0D)"

definition read_word :: "string \<Rightarrow> (string \<times> string) option" where
  "read_word stream =
     (let s = dropWhile isspace stream in
      if s = [] then None
      else Some (takeWhile (\<lambda>c. \<not> isspace c) s, dropWhile (\<lambda>c. \<not> isspace c) s))"

lemma read_word_shorter:
  assumes "read_word stream = Some (word, stream')"
  shows "length stream' < length stream"
proof -
  let ?s = "dropWhile isspace stream"
  from assms have ne: "?s \<noteq> []" and rest: "stream' = dropWhile (\<lambda>c. \<not> isspace c) ?s"
    by (auto simp: read_word_def Let_def split: if_splits)
  from ne have "\<not> isspace (hd ?s)" by (rule hd_dropWhile)
  with ne have "dropWhile (\<lambda>c. \<not> isspace c) ?s = dropWhile (\<lambda>c. \<not> isspace c) (tl ?s)"
    by (cases ?s) auto
  with rest have "stream' = dropWhile (\<lambda>c. \<not> isspace c) (tl ?s)" by simp
  then have "length stream' \<le> length (tl ?s)"
    using length_dropWhile_le [of "\<lambda>c. \<not> isspace c" "tl ?s"] by simp
  also have "\<dots> < length ?s" using ne by (cases ?s) auto
  also have "\<dots> \<le> length stream" by (rule length_dropWhile_le)
  finally show ?thesis .
qed

text \<open>
  \<^verbatim>\<open>macros[word]\<close> is the subscript operator of the table, which is not a pure
  lookup: on a key that is absent it stores an empty text under the key. The model
  returns the text together with the table as the operator leaves it.
\<close>

definition subscript :: "macro_table \<Rightarrow> string \<Rightarrow> string \<times> macro_table" where
  "subscript macros key =
     (case macros key of
        Some replacement \<Rightarrow> (replacement, macros)
      | None \<Rightarrow> ([], macros(key \<mapsto> [])))"

text \<open>
  The loop of \<^verbatim>\<open>expand\<close>: the rest of the input stream, the result so far and the
  table are the state. \<^verbatim>\<open>expand\<close> returns the result and the table after the call.
\<close>

function expand_loop :: "macro_table \<Rightarrow> string \<Rightarrow> string \<Rightarrow> string \<times> macro_table" where
  "expand_loop macros stream result =
     (case read_word stream of
        None \<Rightarrow> (result, macros)
      | Some (word, stream') \<Rightarrow>
          if macros word \<noteq> None then
            (case subscript macros word of
               (replacement, macros') \<Rightarrow>
                 expand_loop macros' stream' (result @ replacement @ '' ''))
          else expand_loop macros stream' (result @ word @ '' ''))"
  by pat_completeness auto
termination
  by (relation "measure (\<lambda>(macros, stream, result). length stream)")
     (auto dest: read_word_shorter)

definition expand :: "macro_table \<Rightarrow> string \<Rightarrow> string \<times> macro_table" where
  "expand macros input = expand_loop macros input []"

text \<open>
  The words that the successive extractions \<^verbatim>\<open>stream >> word\<close> yield on a text.
  A macro invocation, for \<^verbatim>\<open>expand\<close>, is such a word that is a key of the table.
\<close>

function stream_words :: "string \<Rightarrow> string list" where
  "stream_words stream =
     (case read_word stream of
        None \<Rightarrow> []
      | Some (word, stream') \<Rightarrow> word # stream_words stream')"
  by pat_completeness auto
termination
  by (relation "measure length") (auto dest: read_word_shorter)

text \<open>
  Two notions for stating what \<^verbatim>\<open>expand\<close> computes: the text that replaces a
  word (the macro's replacement when the word is a key of the table, the word itself
  otherwise), and a list of texts written out with one space after each.
\<close>

definition substitute :: "macro_table \<Rightarrow> string \<Rightarrow> string" where
  "substitute macros word =
     (case macros word of Some replacement \<Rightarrow> replacement | None \<Rightarrow> word)"

definition spaced :: "string list \<Rightarrow> string" where
  "spaced ws = concat (map (\<lambda>w. w @ '' '') ws)"

text \<open>A table in which the replacement of one macro invokes another macro.\<close>

definition nested_macros :: macro_table where
  "nested_macros = define_macro ''|b|'' ''x'' (define_macro ''|a|'' ''|b|'' Map.empty)"

section \<open>Semantic analyzer\<close>

text \<open>
  \<^verbatim>\<open>SemanticAnalyzer\<close> has one member, the set \<^verbatim>\<open>declared\<close>.
  \<^verbatim>\<open>analyze\<close> clears it and visits the statements in order; only
  \<^verbatim>\<open>Assignment\<close> nodes are inspected. The functions return the set as it is after
  the call, or the error thrown.
\<close>

definition undeclared_variable :: "string \<Rightarrow> error" where
  "undeclared_variable name =
     runtime_error
       (''Semantic Error: Use of undeclared variable '' @ [CHR 0x27] @ name @ [CHR 0x27])"

definition analyzeAssignment :: "string set \<Rightarrow> string \<Rightarrow> Expression \<Rightarrow> string set result" where
  "analyzeAssignment declared name val =
     (let declared' = insert name declared in
      case val of
        IdentifierExpr idname \<Rightarrow>
          if idname \<notin> declared' then Inl (undeclared_variable idname) else Inr declared'
      | _ \<Rightarrow> Inr declared')"

fun analyze_loop :: "string set \<Rightarrow> Statement list \<Rightarrow> string set result" where
  "analyze_loop declared [] = Inr declared"
| "analyze_loop declared (stmt # statements) =
     (case stmt of
        Assignment name val \<Rightarrow>
          (case analyzeAssignment declared name val of
             Inl e \<Rightarrow> Inl e
           | Inr declared' \<Rightarrow> analyze_loop declared' statements)
      | _ \<Rightarrow> analyze_loop declared statements)"

definition analyze :: "string set \<Rightarrow> Statement list \<Rightarrow> string set result" where
  "analyze declared statements =
     (let declared = {} in analyze_loop declared statements)"

section \<open>IR emitter and NASM generator\<close>

text \<open>
  Both passes write text to a file. The model returns the text written; the flag
  \<open>out_ok\<close> says whether the output file could be opened.
\<close>

definition emit_stmt :: "Statement \<Rightarrow> string" where
  "emit_stmt stmt =
     (case stmt of
        Assignment name val \<Rightarrow>
          ''STORE '' @ name @ '' <- '' @
          (case val of
             NumberExpr num \<Rightarrow> ''NUM('' @ num @ '')\<newline>''
           | IdentifierExpr idname \<Rightarrow> ''REF('' @ idname @ '')\<newline>''
           | _ \<Rightarrow> [])
      | _ \<Rightarrow> [])"

definition emit :: "Statement list \<Rightarrow> bool \<Rightarrow> string result" where
  "emit statements out_ok =
     (if \<not> out_ok then Inl (runtime_error ''Failed to write IR file.'')
      else Inr (foldl (\<lambda>out stmt. out @ emit_stmt stmt) [] statements))"

definition data_stmt :: "Statement \<Rightarrow> string" where
  "data_stmt stmt =
     (case stmt of
        Assignment name val \<Rightarrow> name @ '' dq 0\<newline>''
      | _ \<Rightarrow> [])"

definition text_stmt :: "Statement \<Rightarrow> string" where
  "text_stmt stmt =
     (case stmt of
        Assignment name val \<Rightarrow>
          (case val of
             NumberExpr num \<Rightarrow>
               ''    mov rax, '' @ num @ ''\<newline>'' @ ''    mov ['' @ name @ ''], rax\<newline>''
           | IdentifierExpr idname \<Rightarrow>
               ''    mov rax, ['' @ idname @ '']\<newline>'' @ ''    mov ['' @ name @ ''], rax\<newline>''
           | _ \<Rightarrow> [])
      | _ \<Rightarrow> [])"

definition generate :: "Statement list \<Rightarrow> bool \<Rightarrow> string result" where
  "generate statements out_ok =
     (if \<not> out_ok then Inl (runtime_error ''Failed to write ASM file.'')
      else
        (let out = ''section .data\<newline>'';
             out = foldl (\<lambda>out stmt. out @ data_stmt stmt) out statements;
             out = out @ ''\<newline>section .text\<newline> global _start\<newline>_start:\<newline>'';
             out = foldl (\<lambda>out stmt. out @ text_stmt stmt) out statements
         in Inr (out @ ''    mov rax, 60\<newline>    xor rdi, rdi\<newline>    syscall\<newline>'')))"

section \<open>The pipeline of \<^verbatim>\<open>main\<close>\<close>

text \<open>
  \<^verbatim>\<open>main\<close> expands the source text, runs the lexer on the expanded text, parses,
  analyzes, writes the IR and then the assembly. The \<^verbatim>\<open>Lexer\<close> class is not part of
  the source and is a parameter here. The state that outlives a call is the macro table
  of the expander and the set of the analyzer; the function takes both, and returns the
  assembly text (or the error) and the table as the run leaves it.
\<close>

definition compile ::
  "(string \<Rightarrow> Token list) \<Rightarrow> bool \<Rightarrow> bool \<Rightarrow> macro_table \<Rightarrow> string set \<Rightarrow> string
     \<Rightarrow> string result \<times> macro_table" where
  "compile lexer ir_ok asm_ok macros declared source =
     (case expand macros source of
        (expanded, macros') \<Rightarrow>
          (case parse (lexer expanded) of
             Inl e \<Rightarrow> Inl e
           | Inr statements \<Rightarrow>
               (case analyze declared statements of
                  Inl e \<Rightarrow> Inl e
                | Inr declared' \<Rightarrow>
                    (case emit statements ir_ok of
                       Inl e \<Rightarrow> Inl e
                     | Inr ir \<Rightarrow> generate statements asm_ok)),
           macros'))"

section \<open>Token streams of the example programs\<close>

text \<open>
  The parser takes a token vector. A token of the examples is written with its kind,
  its lexeme and its column on line 1.
\<close>

definition tok :: "TokenType \<Rightarrow> string \<Rightarrow> int \<Rightarrow> Token" where
  "tok ty lx col = \<lparr>type = ty, lexeme = lx, line = 1, column = col\<rparr>"

text \<open>
  The token stream \<^verbatim>\<open>x = 5 y = 6\<close>: two assignments and the end-of-file token,
  with no end-of-line token.
\<close>

definition tokens_no_terminator :: "Token list" where
  "tokens_no_terminator =
     [tok Identifier ''x'' 1, tok Assign ''='' 3, tok Number ''5'' 5,
      tok Identifier ''y'' 7, tok Assign ''='' 9, tok Number ''6'' 11,
      tok EndOfFile [] 12]"

text \<open>
  Modelled from the spec: the \<^verbatim>\<open>Lexer\<close> class that \<^verbatim>\<open>main\<close> calls is not part of
  the source. The two token streams below are the ones that section 4.2 of the
  specification prescribes for the program texts \<^verbatim>\<open>x = 5; y = x;\<close> and
  \<^verbatim>\<open>x = 5; y = x; z = x + y;\<close>: one token per lexeme, closed by one end-of-file
  token, with the kinds that the comments of the parser give (\<^verbatim>\<open>'='\<close> is
  \<open>Assign\<close>, \<^verbatim>\<open>';'\<close> is \<open>EndOfLine\<close>) and \<open>Symbol\<close> for the operator.
\<close>

definition tokens_x_y :: "Token list" where
  "tokens_x_y =
     [tok Identifier ''x'' 1, tok Assign ''='' 3, tok Number ''5'' 5, tok EndOfLine '';'' 6,
      tok Identifier ''y'' 8, tok Assign ''='' 10, tok Identifier ''x'' 12, tok EndOfLine '';'' 13,
      tok EndOfFile [] 14]"

definition tokens_x_y_z :: "Token list" where
  "tokens_x_y_z =
     [tok Identifier ''x'' 1, tok Assign ''='' 3, tok Number ''5'' 5, tok EndOfLine '';'' 6,
      tok Identifier ''y'' 8, tok Assign ''='' 10, tok Identifier ''x'' 12, tok EndOfLine '';'' 13,
      tok Identifier ''z'' 15, tok Assign ''='' 17, tok Identifier ''x'' 19, tok Symbol ''+'' 21,
      tok Identifier ''y'' 23, tok EndOfLine '';'' 24,
      tok EndOfFile [] 25]"

section \<open>Properties of the parser\<close>

lemmas parser_defs =
  parse_def parseStatement_def parseAssignment_def parseExpression_def match_def
  advance_def previous_def isAtEnd_def peek_def

text \<open>
  A statement that parses consumes the identifier, the assignment sign and one operand,
  and then the terminator exactly when the next token is one.
\<close>

lemma parseStatement_consumes:
  assumes "parseStatement tokens current = Inr (s, current')"
  shows "current + 3 < length tokens \<and>
         current' = (if type (tokens ! (current + 3)) = EndOfLine then current + 4
                     else current + 3)"
  using assms
  unfolding parseStatement_def parseAssignment_def parseExpression_def match_def
    advance_def previous_def isAtEnd_def peek_def Let_def
  by (auto simp: eval_nat_numeral split: if_splits sum.splits prod.splits bool.splits)

text \<open>
  Every statement that the parser yields is an assignment whose right-hand side is a
  number or an identifier.
\<close>

lemma parseStatement_shape:
  assumes "parseStatement tokens current = Inr (s, current')"
  shows "\<exists>name v. s = Assignment name (NumberExpr v) \<or> s = Assignment name (IdentifierExpr v)"
  using assms
  unfolding parseStatement_def parseAssignment_def parseExpression_def match_def
    advance_def previous_def isAtEnd_def peek_def Let_def
  by (auto split: if_splits sum.splits prod.splits bool.splits)

lemma parse_loop_shape:
  assumes "parse_loop tokens current acc = Inr statements"
    and "\<forall>s\<in>set acc. \<exists>name v. s = Assignment name (NumberExpr v) \<or> s = Assignment name (IdentifierExpr v)"
  shows "\<forall>s\<in>set statements. \<exists>name v. s = Assignment name (NumberExpr v) \<or> s = Assignment name (IdentifierExpr v)"
  using assms
proof (induction tokens current acc rule: parse_loop.induct)
  case (1 tokens current acc)
  show ?case
  proof (cases "isAtEnd tokens current")
    case (Inl e)
    with "1.prems"(1) show ?thesis by (simp add: parse_loop.simps [of tokens current])
  next
    case (Inr at_end)
    show ?thesis
    proof (cases at_end)
      case True
      with Inr "1.prems" show ?thesis by (simp add: parse_loop.simps [of tokens current])
    next
      case False
      with Inr "1.prems"(1) obtain s current' where ps: "parseStatement tokens current = Inr (s, current')"
        and rest: "parse_loop tokens current' (acc @ [s]) = Inr statements"
        by (auto simp: parse_loop.simps [of tokens current] split: sum.splits)
      from parseStatement_shape [OF ps] "1.prems"(2)
      have "\<forall>t\<in>set (acc @ [s]). \<exists>name v. t = Assignment name (NumberExpr v) \<or> t = Assignment name (IdentifierExpr v)"
        by auto
      with "1.IH" [of at_end "(s, current')" s current'] Inr False ps rest show ?thesis
        by simp
    qed
  qed
qed

lemma parse_shape:
  "parse tokens = Inr statements \<Longrightarrow>
     \<forall>s\<in>set statements. \<exists>name v. s = Assignment name (NumberExpr v) \<or> s = Assignment name (IdentifierExpr v)"
  using parse_loop_shape [of tokens 0 "[]" statements] by (simp add: parse_def)

text \<open>
  C10. The terminator after an assignment is optional: a statement that parses ends
  after its operand, or after the end-of-line token when one follows the operand; and the
  token stream of \<^verbatim>\<open>x = 5 y = 6\<close>, which has no end-of-line token, parses into the
  two assignments \<^verbatim>\<open>x = 5\<close> and \<^verbatim>\<open>y = 6\<close>.
\<close>

theorem parse_without_terminator:
  "(parseStatement tokens current = Inr (s, current') \<longrightarrow>
      current' = (if type (tokens ! (current + 3)) = EndOfLine then current + 4
                  else current + 3)) \<and>
   parse tokens_no_terminator =
     Inr [Assignment ''x'' (NumberExpr ''5''), Assignment ''y'' (NumberExpr ''6'')]"
proof (intro conjI impI)
  assume "parseStatement tokens current = Inr (s, current')"
  then show "current' = (if type (tokens ! (current + 3)) = EndOfLine then current + 4
                  else current + 3)"
    by (simp add: parseStatement_consumes)
next
  show "parse tokens_no_terminator =
     Inr [Assignment ''x'' (NumberExpr ''5''), Assignment ''y'' (NumberExpr ''6'')]"
    by (simp add: parser_defs tokens_no_terminator_def tok_def)
qed

theorem parse_without_terminator_witness:
  "parseStatement tokens_no_terminator 0 = Inr (Assignment ''x'' (NumberExpr ''5''), 3) \<and>
   type (tokens_no_terminator ! 3) = Identifier \<and>
   parseStatement tokens_x_y 0 = Inr (Assignment ''x'' (NumberExpr ''5''), 4) \<and>
   type (tokens_x_y ! 3) = EndOfLine"
proof -
  have a: "parseStatement tokens_no_terminator 0 = Inr (Assignment ''x'' (NumberExpr ''5''), 3)"
    by (simp add: parser_defs tokens_no_terminator_def tok_def)
  have b: "parseStatement tokens_x_y 0 = Inr (Assignment ''x'' (NumberExpr ''5''), 4)"
    by (simp add: parser_defs tokens_x_y_def tok_def)
  from parse_without_terminator [of tokens_no_terminator 0 "Assignment ''x'' (NumberExpr ''5'')" 3] a
  have "type (tokens_no_terminator ! 3) \<noteq> EndOfLine"
    by (auto split: if_splits)
  then have "type (tokens_no_terminator ! 3) = Identifier"
    by (simp add: tokens_no_terminator_def tok_def)
  moreover
  from parse_without_terminator [of tokens_x_y 0 "Assignment ''x'' (NumberExpr ''5'')" 4] b
  have "type (tokens_x_y ! 3) = EndOfLine"
    by (auto split: if_splits)
  ultimately show ?thesis using a b by simp
qed

text \<open>
  C1, as stated, fails: on the token stream of \<^verbatim>\<open>x = 5; y = x; z = x + y;\<close> the
  parser throws. \<^verbatim>\<open>parseExpression\<close> takes the single operand \<^verbatim>\<open>x\<close>, the
  assignment ends there, and the next statement starts at \<^verbatim>\<open>+\<close>.
\<close>

theorem parse_sum_counterexample:
  "parse tokens_x_y_z = Inl (runtime_error ''Unexpected statement'')"
  by (simp add: parser_defs tokens_x_y_z_def tok_def)

text \<open>
  C1, amended. The parser rejects the program \<^verbatim>\<open>x = 5; y = x; z = x + y;\<close> with
  ``Unexpected statement''; its first two statements \<^verbatim>\<open>x = 5; y = x;\<close> parse to
  exactly two assignment nodes, which the IR emitter lowers, in order, to
  \<^verbatim>\<open>STORE x <- NUM(5)\<close> and \<^verbatim>\<open>STORE y <- REF(x)\<close>; and no right-hand side
  makes the emitter write \<^verbatim>\<open>STORE z <- ADD(REF(x), REF(y))\<close>.
\<close>

theorem parse_and_lower_x_y:
  "parse tokens_x_y_z = Inl (runtime_error ''Unexpected statement'') \<and>
   parse tokens_x_y =
     Inr [Assignment ''x'' (NumberExpr ''5''), Assignment ''y'' (IdentifierExpr ''x'')] \<and>
   emit [Assignment ''x'' (NumberExpr ''5''), Assignment ''y'' (IdentifierExpr ''x'')] True =
     Inr ''STORE x <- NUM(5)\<newline>STORE y <- REF(x)\<newline>'' \<and>
   (\<forall>e. emit [Assignment ''z'' e] True \<noteq> Inr ''STORE z <- ADD(REF(x), REF(y))\<newline>'')"
proof (intro conjI allI)
  show "parse tokens_x_y_z = Inl (runtime_error ''Unexpected statement'')"
    by (simp add: parser_defs tokens_x_y_z_def tok_def)
  show "parse tokens_x_y =
     Inr [Assignment ''x'' (NumberExpr ''5''), Assignment ''y'' (IdentifierExpr ''x'')]"
    by (simp add: parser_defs tokens_x_y_def tok_def)
  show "emit [Assignment ''x'' (NumberExpr ''5''), Assignment ''y'' (IdentifierExpr ''x'')] True =
     Inr ''STORE x <- NUM(5)\<newline>STORE y <- REF(x)\<newline>''"
    by (simp add: emit_def emit_stmt_def)
  fix e
  show "emit [Assignment ''z'' e] True \<noteq> Inr ''STORE z <- ADD(REF(x), REF(y))\<newline>''"
    by (cases e) (simp_all add: emit_def emit_stmt_def)
qed

section \<open>Properties of the semantic analyzer\<close>

lemma analyze_loop_append:
  "analyze_loop declared (xs @ ys) =
     (case analyze_loop declared xs of
        Inl e \<Rightarrow> Inl e
      | Inr declared' \<Rightarrow> analyze_loop declared' ys)"
proof (induction xs arbitrary: declared)
  case Nil
  show ?case by simp
next
  case (Cons stmt xs)
  show ?case
  proof (cases stmt)
    case (Assignment name val)
    then show ?thesis
      using Cons.IH by (cases "analyzeAssignment declared name val") simp_all
  qed (simp_all add: Cons.IH)
qed

text \<open>
  C9. A self-referential assignment \<^verbatim>\<open>x = x;\<close> whose name no earlier statement
  declared passes semantic analysis: the target is put into the declared set before
  the right-hand side is looked up.
\<close>

theorem self_assignment_accepted:
  assumes "analyze declared0 statements = Inr declared" and "x \<notin> declared"
  shows "analyze declared0 (statements @ [Assignment x (IdentifierExpr x)]) =
           Inr (insert x declared)"
  using assms by (simp add: analyze_def analyze_loop_append analyzeAssignment_def)

theorem self_assignment_accepted_witness:
  "analyze {} [Assignment ''y'' (NumberExpr ''1'')] = Inr {''y''} \<and> ''x'' \<notin> {''y''} \<and>
   analyze {} ([Assignment ''y'' (NumberExpr ''1'')] @ [Assignment ''x'' (IdentifierExpr ''x'')]) =
     Inr (insert ''x'' {''y''})"
proof -
  have h1: "analyze {} [Assignment ''y'' (NumberExpr ''1'')] = Inr {''y''}"
    by (simp add: analyze_def analyzeAssignment_def)
  have h2: "''x'' \<notin> {''y''}" by simp
  from self_assignment_accepted [OF h1 h2] h1 h2 show ?thesis by simp
qed

text \<open>
  When the analysis succeeds, the set it leaves holds the targets of the top-level
  assignments.
\<close>

lemma analyze_loop_declared:
  "analyze_loop declared statements = Inr declared' \<Longrightarrow>
     declared' = declared \<union> {n. \<exists>e. Assignment n e \<in> set statements}"
proof (induction statements arbitrary: declared)
  case Nil
  then show ?case by simp
next
  case (Cons stmt statements)
  show ?case
  proof (cases stmt)
    case (Assignment name val)
    with Cons.prems obtain d where d: "analyzeAssignment declared name val = Inr d"
      and rest: "analyze_loop d statements = Inr declared'"
      by (auto split: sum.splits)
    from d have "d = insert name declared"
      by (auto simp: analyzeAssignment_def Let_def split: Expression.splits if_splits)
    with Cons.IH [OF rest] Assignment show ?thesis by auto
  qed (use Cons in auto)
qed

text \<open>
  C5, as stated, fails: in the program \<^verbatim>\<open>x = x;\<close> the identifier \<^verbatim>\<open>x\<close> is
  used with no declaration before it, and the analysis succeeds.
\<close>

theorem self_use_counterexample:
  "analyze {} [Assignment ''x'' (IdentifierExpr ''x'')] = Inr {''x''}"
  by (simp add: analyze_def analyzeAssignment_def)

text \<open>
  C5, amended. When the statements before a top-level assignment \<^verbatim>\<open>name = v;\<close> pass
  the analysis, and the identifier \<^verbatim>\<open>v\<close> is neither \<^verbatim>\<open>name\<close> itself nor the
  target of one of the assignments before it, the analysis fails with the runtime error
  \<^verbatim>\<open>Semantic Error: Use of undeclared variable 'v'\<close>, which names \<^verbatim>\<open>v\<close>.
\<close>

theorem undeclared_use_rejected:
  assumes "analyze declared0 before = Inr declared"
    and "v \<noteq> name" and "\<forall>e. Assignment v e \<notin> set before"
  shows "analyze declared0 (before @ Assignment name (IdentifierExpr v) # after) =
           Inl (runtime_error
             (''Semantic Error: Use of undeclared variable '' @ [CHR 0x27] @ v @ [CHR 0x27]))"
proof -
  from assms(1) have "declared = {n. \<exists>e. Assignment n e \<in> set before}"
    using analyze_loop_declared [of "{}" before declared] by (simp add: analyze_def)
  with assms(3) have "v \<notin> declared" by simp
  with assms(1,2) show ?thesis
    by (simp add: analyze_def analyze_loop_append analyzeAssignment_def undeclared_variable_def)
qed

theorem undeclared_use_rejected_witness:
  "analyze {} ([Assignment ''x'' (NumberExpr ''5'')] @ Assignment ''y'' (IdentifierExpr ''z'') #
      [Assignment ''z'' (NumberExpr ''1'')]) =
     Inl (runtime_error
       (''Semantic Error: Use of undeclared variable '' @ [CHR 0x27] @ ''z'' @ [CHR 0x27]))"
proof -
  have h1: "analyze {} [Assignment ''x'' (NumberExpr ''5'')] = Inr {''x''}"
    by (simp add: analyze_def analyzeAssignment_def)
  have h2: "''z'' \<noteq> ''y''" by simp
  have h3: "\<forall>e. Assignment ''z'' e \<notin> set [Assignment ''x'' (NumberExpr ''5'')]" by simp
  show ?thesis by (rule undeclared_use_rejected [OF h1 h2 h3])
qed

subsection \<open>Return placement\<close>

text \<open>
  \<^verbatim>\<open>SemanticAnalyzer::analyze\<close> is the only analysis that \<^verbatim>\<open>main\<close> runs, and
  the only function of that name. The loop over \<^verbatim>\<open>inFunction\<close> that throws
  \<^verbatim>\<open>Return statement used outside a function.\<close> stands after the class at file
  scope: it is part of no function, and nothing calls it.
\<close>

lemma analyze_loop_skips_return:
  "analyze_loop declared (before @ ReturnStatement returnValue # after) =
     analyze_loop declared (before @ after)"
proof -
  have "analyze_loop d (ReturnStatement returnValue # after) = analyze_loop d after" for d
    by simp
  then show ?thesis
    by (cases "analyze_loop declared before") (simp_all add: analyze_loop_append)
qed

text \<open>
  C6 fails on the code. A program whose only top-level statement is a return statement
  passes \<^verbatim>\<open>analyze\<close>; more generally a return statement, wherever it stands among
  the statements, changes nothing in the result of the analysis, so none is rejected.
\<close>

theorem analyze_accepts_return:
  "analyze declared [ReturnStatement None] = Inr {} \<and>
   analyze declared (before @ ReturnStatement returnValue # after) =
     analyze declared (before @ after)"
  by (simp add: analyze_def analyze_loop_skips_return)

section \<open>Properties of the NASM generator\<close>

lemma foldl_append_concat:
  "foldl (\<lambda>out stmt. out @ f stmt) out statements = out @ concat (map f statements)"
  by (induction statements arbitrary: out) simp_all

text \<open>
  C7, as stated, fails: top-level statements other than an assignment of a number or an
  identifier get no code at the entry point. For the program that is one return
  statement the entry point holds the exit call only, and for \<^verbatim>\<open>a = Vec2();\<close> the
  data section declares \<^verbatim>\<open>a\<close> and the entry point still holds the exit call only.
\<close>

theorem generate_skips_statement_counterexample:
  "generate [ReturnStatement None] True =
     Inr (''section .data\<newline>'' @
          ''\<newline>section .text\<newline> global _start\<newline>_start:\<newline>'' @
          ''    mov rax, 60\<newline>    xor rdi, rdi\<newline>    syscall\<newline>'') \<and>
   generate [Assignment ''a'' (StructInit ''Vec2'')] True =
     Inr (''section .data\<newline>a dq 0\<newline>'' @
          ''\<newline>section .text\<newline> global _start\<newline>_start:\<newline>'' @
          ''    mov rax, 60\<newline>    xor rdi, rdi\<newline>    syscall\<newline>'')"
  by (simp add: generate_def data_stmt_def text_stmt_def)

text \<open>
  C7, amended. The assembly text is the data section, then the label
  \<^verbatim>\<open>_start:\<close> followed by the code of the top-level statements in program order, and
  it ends with the exit system call (\<^verbatim>\<open>rax = 60\<close>) whose status register
  \<^verbatim>\<open>rdi\<close> is cleared to zero. A statement has code there exactly when it is an
  assignment of a number (\<^verbatim>\<open>mov rax, n\<close>, \<^verbatim>\<open>mov [name], rax\<close>) or of an
  identifier (\<^verbatim>\<open>mov rax, [v]\<close>, \<^verbatim>\<open>mov [name], rax\<close>); every other statement
  gets none. Every statement that the parser yields is of that kind.
\<close>

theorem generate_entry_point:
  "generate statements True =
     Inr (''section .data\<newline>'' @ concat (map data_stmt statements) @
          ''\<newline>section .text\<newline> global _start\<newline>_start:\<newline>'' @
          concat (map text_stmt statements) @
          ''    mov rax, 60\<newline>    xor rdi, rdi\<newline>    syscall\<newline>'') \<and>
   text_stmt (Assignment name (NumberExpr n)) =
     ''    mov rax, '' @ n @ ''\<newline>    mov ['' @ name @ ''], rax\<newline>'' \<and>
   text_stmt (Assignment name (IdentifierExpr v)) =
     ''    mov rax, ['' @ v @ '']\<newline>    mov ['' @ name @ ''], rax\<newline>'' \<and>
   (text_stmt stmt \<noteq> [] \<longleftrightarrow>
      (\<exists>name' v'. stmt = Assignment name' (NumberExpr v') \<or>
                  stmt = Assignment name' (IdentifierExpr v'))) \<and>
   (parse tokens = Inr statements \<longrightarrow> (\<forall>s\<in>set statements. text_stmt s \<noteq> []))"
proof (intro conjI impI ballI)
  show "generate statements True =
     Inr (''section .data\<newline>'' @ concat (map data_stmt statements) @
          ''\<newline>section .text\<newline> global _start\<newline>_start:\<newline>'' @
          concat (map text_stmt statements) @
          ''    mov rax, 60\<newline>    xor rdi, rdi\<newline>    syscall\<newline>'')"
    by (simp add: generate_def foldl_append_concat)
next
  show "text_stmt (Assignment name (NumberExpr n)) =
     ''    mov rax, '' @ n @ ''\<newline>    mov ['' @ name @ ''], rax\<newline>''"
    by (simp add: text_stmt_def)
next
  show "text_stmt (Assignment name (IdentifierExpr v)) =
     ''    mov rax, ['' @ v @ '']\<newline>    mov ['' @ name @ ''], rax\<newline>''"
    by (simp add: text_stmt_def)
next
  show "text_stmt stmt \<noteq> [] \<longleftrightarrow>
      (\<exists>name' v'. stmt = Assignment name' (NumberExpr v') \<or>
                  stmt = Assignment name' (IdentifierExpr v'))"
  proof (cases stmt)
    case (Assignment name' val)
    then show ?thesis by (cases val) (simp_all add: text_stmt_def)
  qed (simp_all add: text_stmt_def)
next
  fix s
  assume "parse tokens = Inr statements" and "s \<in> set statements"
  with parse_shape [of tokens statements]
  obtain name' v' where
    "s = Assignment name' (NumberExpr v') \<or> s = Assignment name' (IdentifierExpr v')"
    by blast
  then show "text_stmt s \<noteq> []" by (auto simp: text_stmt_def)
qed

theorem generate_entry_point_witness:
  "generate [Assignment ''x'' (NumberExpr ''5''), Assignment ''y'' (IdentifierExpr ''x'')] True =
     Inr (''section .data\<newline>x dq 0\<newline>y dq 0\<newline>'' @
          ''\<newline>section .text\<newline> global _start\<newline>_start:\<newline>'' @
          ''    mov rax, 5\<newline>    mov [x], rax\<newline>    mov rax, [x]\<newline>    mov [y], rax\<newline>'' @
          ''    mov rax, 60\<newline>    xor rdi, rdi\<newline>    syscall\<newline>'') \<and>
   list_all (\<lambda>s. text_stmt s \<noteq> [])
     [Assignment ''x'' (NumberExpr ''5''), Assignment ''y'' (IdentifierExpr ''x'')]"
proof -
  let ?ss = "[Assignment ''x'' (NumberExpr ''5''), Assignment ''y'' (IdentifierExpr ''x'')]"
  have p: "parse tokens_x_y = Inr ?ss"
    by (simp add: parser_defs tokens_x_y_def tok_def)
  note t = generate_entry_point [of ?ss _ _ _ _ tokens_x_y]
  from t p have "\<forall>s\<in>set ?ss. text_stmt s \<noteq> []" by blast
  then have "list_all (\<lambda>s. text_stmt s \<noteq> []) ?ss" by (simp only: list_all_iff)
  moreover from t have "generate ?ss True =
     Inr (''section .data\<newline>x dq 0\<newline>y dq 0\<newline>'' @
          ''\<newline>section .text\<newline> global _start\<newline>_start:\<newline>'' @
          ''    mov rax, 5\<newline>    mov [x], rax\<newline>    mov rax, [x]\<newline>    mov [y], rax\<newline>'' @
          ''    mov rax, 60\<newline>    xor rdi, rdi\<newline>    syscall\<newline>'')"
    by (simp add: data_stmt_def text_stmt_def)
  ultimately show ?thesis by simp
qed

section \<open>Properties of the macro engine\<close>

declare expand_loop.simps [simp del] stream_words.simps [simp del]

lemma expand_loop_eq:
  "expand_loop macros stream result =
     (result @ spaced (map (substitute macros) (stream_words stream)), macros)"
proof (induction macros stream result rule: expand_loop.induct)
  case (1 macros stream result)
  show ?case
  proof (cases "read_word stream")
    case None
    then show ?thesis
      by (simp add: expand_loop.simps [of macros stream] stream_words.simps [of stream] spaced_def)
  next
    case (Some p)
    then obtain word stream' where rw: "read_word stream = Some (word, stream')"
      by (cases p) simp
    show ?thesis
    proof (cases "macros word")
      case None
      from "1.IH"(2) [OF rw refl] None
      have "expand_loop macros stream' (result @ word @ '' '') =
              ((result @ word @ '' '') @ spaced (map (substitute macros) (stream_words stream')), macros)"
        by simp
      moreover from None have "substitute macros word = word" by (simp add: substitute_def)
      ultimately show ?thesis using rw None
        by (simp add: expand_loop.simps [of macros stream] stream_words.simps [of stream]
            spaced_def)
    next
      case (Some replacement)
      then have sub: "subscript macros word = (replacement, macros)"
        by (simp add: subscript_def)
      from Some have "macros word \<noteq> None" by simp
      from "1.IH"(1) [OF rw refl this sub [symmetric]]
      have "expand_loop macros stream' (result @ replacement @ '' '') =
              ((result @ replacement @ '' '') @ spaced (map (substitute macros) (stream_words stream')), macros)"
        by simp
      moreover from Some have "substitute macros word = replacement"
        by (simp add: substitute_def)
      ultimately show ?thesis using rw Some sub
        by (simp add: expand_loop.simps [of macros stream] stream_words.simps [of stream]
            spaced_def)
    qed
  qed
qed

lemma takeWhile_append_stop: "\<not> P y \<Longrightarrow> takeWhile P (xs @ y # ys) = takeWhile P xs"
  by (induction xs) auto

lemma dropWhile_append_stop: "\<not> P y \<Longrightarrow> dropWhile P (xs @ y # ys) = dropWhile P xs @ y # ys"
  by (induction xs) auto

lemma read_word_append_space:
  assumes "read_word a = Some (w, r)" and "isspace c"
  shows "read_word (a @ c # b) = Some (w, r @ c # b)"
proof -
  let ?a = "dropWhile isspace a"
  from assms(1) have ne: "?a \<noteq> []"
    and w: "w = takeWhile (\<lambda>c. \<not> isspace c) ?a" and r: "r = dropWhile (\<lambda>c. \<not> isspace c) ?a"
    by (auto simp: read_word_def Let_def split: if_splits)
  from ne obtain x where "x \<in> set a" "\<not> isspace x"
    by (auto simp: dropWhile_eq_Nil_conv)
  then have "dropWhile isspace (a @ c # b) = ?a @ c # b"
    by (rule dropWhile_append1)
  with ne w r assms(2) show ?thesis
    by (simp add: read_word_def takeWhile_append_stop dropWhile_append_stop)
qed

lemma read_word_space_only:
  assumes "read_word a = None" and "isspace c"
  shows "read_word (a @ c # b) = read_word b"
proof -
  from assms(1) have "dropWhile isspace a = []"
    by (auto simp: read_word_def Let_def split: if_splits)
  then have "\<forall>x\<in>set a. isspace x" by (simp add: dropWhile_eq_Nil_conv)
  then have "dropWhile isspace (a @ c # b) = dropWhile isspace b"
    using assms(2) by (simp add: dropWhile_append2)
  then show ?thesis by (simp add: read_word_def)
qed

lemma stream_words_append_space:
  "isspace c \<Longrightarrow> stream_words (a @ c # b) = stream_words a @ stream_words b"
proof (induction a rule: stream_words.induct)
  case (1 a)
  show ?case
  proof (cases "read_word a")
    case None
    with 1(2) show ?thesis
      using read_word_space_only [OF None 1(2), of b]
      by (simp add: stream_words.simps [of a] stream_words.simps [of "a @ c # b"]
          stream_words.simps [of b])
  next
    case (Some p)
    obtain w r where p: "p = (w, r)" by (cases p)
    from Some p have rw: "read_word a = Some (w, r)" by simp
    from "1.IH" [OF Some p [symmetric] 1(2)] read_word_append_space [OF rw 1(2), of b] rw
    show ?thesis
      by (simp add: stream_words.simps [of a] stream_words.simps [of "a @ c # b"])
  qed
qed

lemma stream_words_Nil [simp]: "stream_words [] = []"
  by (simp add: stream_words.simps [of "[]"] read_word_def)

lemma stream_words_spaced: "stream_words (spaced ws) = concat (map stream_words ws)"
proof (induction ws)
  case Nil
  show ?case by (simp add: spaced_def)
next
  case (Cons w ws)
  have "stream_words (w @ CHR '' '' # spaced ws) = stream_words w @ stream_words (spaced ws)"
    by (rule stream_words_append_space) (simp add: isspace_def)
  with Cons show ?case by (simp add: spaced_def)
qed

lemma read_word_props:
  assumes "read_word s = Some (w, r)"
  shows "w \<noteq> [] \<and> (\<forall>c\<in>set w. \<not> isspace c)"
proof -
  let ?s = "dropWhile isspace s"
  from assms have ne: "?s \<noteq> []" and w: "w = takeWhile (\<lambda>c. \<not> isspace c) ?s"
    by (auto simp: read_word_def Let_def split: if_splits)
  from ne have "\<not> isspace (hd ?s)" by (rule hd_dropWhile)
  with ne w have "w \<noteq> []" by (cases ?s) auto
  moreover from w have "\<forall>c\<in>set w. \<not> isspace c" by (auto dest: set_takeWhileD)
  ultimately show ?thesis by simp
qed

lemma stream_words_props:
  "w \<in> set (stream_words s) \<Longrightarrow> w \<noteq> [] \<and> (\<forall>c\<in>set w. \<not> isspace c)"
proof (induction s rule: stream_words.induct)
  case (1 s)
  show ?case
  proof (cases "read_word s")
    case None
    with 1(2) show ?thesis by (simp add: stream_words.simps [of s])
  next
    case (Some p)
    obtain v r where p: "p = (v, r)" by (cases p)
    from 1(2) Some p have "w = v \<or> w \<in> set (stream_words r)"
      by (simp add: stream_words.simps [of s])
    then show ?thesis
    proof
      assume "w = v"
      with Some p read_word_props [of s v r] show ?thesis by simp
    next
      assume "w \<in> set (stream_words r)"
      with "1.IH" [OF Some p [symmetric]] show ?thesis by simp
    qed
  qed
qed

lemma stream_words_single:
  assumes "w \<noteq> []" and "\<forall>c\<in>set w. \<not> isspace c"
  shows "stream_words w = [w]"
proof -
  from assms have "dropWhile isspace w = w" by (cases w) auto
  moreover from assms(2) have "takeWhile (\<lambda>c. \<not> isspace c) w = w" "dropWhile (\<lambda>c. \<not> isspace c) w = []"
    by simp_all
  ultimately have "read_word w = Some (w, [])" using assms(1) by (simp add: read_word_def)
  then show ?thesis by (simp add: stream_words.simps [of w])
qed

lemmas macro_eval =
  expand_def expand_loop.simps read_word_def isspace_def subscript_def define_macro_def
  loadDefaults_def nested_macros_def

lemma spaced_concat: "spaced (concat xss) = concat (map spaced xss)"
  by (induction xss) (simp_all add: spaced_def)

lemma expand_eq:
  "expand macros input = (spaced (map (substitute macros) (stream_words input)), macros)"
  by (simp add: expand_def expand_loop_eq)

lemma stream_words_substitute:
  assumes "\<forall>r\<in>ran macros. \<forall>w\<in>set (stream_words r). macros w = None"
    and "v \<in> set (stream_words input)" and "w \<in> set (stream_words (substitute macros v))"
  shows "macros w = None"
proof (cases "macros v")
  case None
  from assms(2) have "stream_words v = [v]"
    using stream_words_props [of v input] by (simp add: stream_words_single)
  with None assms(3) show ?thesis by (simp add: substitute_def)
next
  case (Some r)
  then have "r \<in> ran macros" by (auto simp: ran_def)
  with Some assms(1,3) show ?thesis by (simp add: substitute_def)
qed

text \<open>
  The default table of \<^verbatim>\<open>loadDefaults\<close>: its replacement texts are written
  with single spaces and contain no macro name.
\<close>

lemma ran_loadDefaults:
  "ran (loadDefaults Map.empty) = {''x = 0;'', ''x = x - 1;'', ''x = x + 1;''}"
  by (simp add: loadDefaults_def define_macro_def)

lemma stream_words_defaults:
  "stream_words ''x = 0;'' = [''x'', ''='', ''0;'']"
  "stream_words ''x = x - 1;'' = [''x'', ''='', ''x'', ''-'', ''1;'']"
  "stream_words ''x = x + 1;'' = [''x'', ''='', ''x'', ''+'', ''1;'']"
  by (simp_all add: stream_words.simps read_word_def isspace_def)

lemma loadDefaults_bodies:
  "\<forall>r\<in>ran (loadDefaults Map.empty). spaced (stream_words r) = r @ '' '' \<and>
     (\<forall>w\<in>set (stream_words r). loadDefaults Map.empty w = None)"
  unfolding ran_loadDefaults
  by (simp add: stream_words_defaults spaced_def loadDefaults_def define_macro_def)

text \<open>
  C2, as stated, fails: with a table in which \<^verbatim>\<open>|a|\<close> is replaced by
  \<^verbatim>\<open>|b|\<close> and \<^verbatim>\<open>|b|\<close> by \<^verbatim>\<open>x\<close>, expanding \<^verbatim>\<open>|a|\<close> gives
  \<^verbatim>\<open>|b|\<close>, an invocation of a defined macro, left in the output.
\<close>

theorem expand_nested_counterexample:
  "fst (expand nested_macros ''|a|'') = ''|b| '' \<and> nested_macros ''|b|'' = Some ''x''"
  by (simp add: macro_eval)

text \<open>
  C2, amended. Macro expansion is a single pass over the words of the input: every
  word that is a defined macro name is replaced by that macro's replacement text, once,
  every other word is copied, and each is followed by one space; replacement texts are
  not scanned again. The output therefore has no word that is a macro name whenever no
  replacement text of the table contains a macro name as a word.
\<close>

theorem expand_single_pass:
  "fst (expand macros input) = spaced (map (substitute macros) (stream_words input)) \<and>
   ((\<forall>r\<in>ran macros. \<forall>w\<in>set (stream_words r). macros w = None) \<longrightarrow>
      (\<forall>w\<in>set (stream_words (fst (expand macros input))). macros w = None))"
proof (intro conjI impI ballI)
  show "fst (expand macros input) = spaced (map (substitute macros) (stream_words input))"
    by (simp add: expand_eq)
next
  fix w
  assume flat: "\<forall>r\<in>ran macros. \<forall>w\<in>set (stream_words r). macros w = None"
    and "w \<in> set (stream_words (fst (expand macros input)))"
  then obtain v where "v \<in> set (stream_words input)"
    and "w \<in> set (stream_words (substitute macros v))"
    by (auto simp: expand_eq stream_words_spaced)
  with flat show "macros w = None" by (rule stream_words_substitute)
qed

theorem expand_single_pass_witness:
  "list_all (\<lambda>w. loadDefaults Map.empty w = None)
     (stream_words (fst (expand (loadDefaults Map.empty) ''|inc| |inc|''))) \<and>
   fst (expand (loadDefaults Map.empty) ''|inc| |inc|'') = ''x = x + 1; x = x + 1; ''"
proof -
  have flat: "\<forall>r\<in>ran (loadDefaults Map.empty). \<forall>w\<in>set (stream_words r).
      loadDefaults Map.empty w = None"
    using loadDefaults_bodies by simp
  from expand_single_pass [of "loadDefaults Map.empty" "''|inc| |inc|''"] flat
  have "\<forall>w\<in>set (stream_words (fst (expand (loadDefaults Map.empty) ''|inc| |inc|''))).
      loadDefaults Map.empty w = None"
    by blast
  then have "list_all (\<lambda>w. loadDefaults Map.empty w = None)
     (stream_words (fst (expand (loadDefaults Map.empty) ''|inc| |inc|'')))"
    by (simp add: list_all_iff)
  moreover have "fst (expand (loadDefaults Map.empty) ''|inc| |inc|'') = ''x = x + 1; x = x + 1; ''"
    by (simp add: macro_eval)
  ultimately show ?thesis by simp
qed

text \<open>
  C3, as stated, fails twice: with the default table, \<^verbatim>\<open>x = 5;\<close> has no macro
  invocation and comes back with a space added at its end; and with the nested table,
  expanding the expansion of \<^verbatim>\<open>|a|\<close> changes it once more.
\<close>

theorem expand_changes_text_counterexample:
  "fst (expand (loadDefaults Map.empty) ''x = 5;'') \<noteq> ''x = 5;'' \<and>
   fst (expand nested_macros (fst (expand nested_macros ''|a|''))) \<noteq>
     fst (expand nested_macros ''|a|'')"
  by (simp add: macro_eval)

text \<open>
  C3, amended. For every input text that contains no macro invocation,
  \<^verbatim>\<open>expand\<close> returns the words of the text, each followed by one space (the text
  itself only when it is already written that way); and when every replacement text of
  the table is written that way but for the final space, and contains no macro name,
  expanding the result of an expansion returns it unchanged.
\<close>

theorem expand_normalises:
  "((\<forall>w\<in>set (stream_words input). macros w = None) \<longrightarrow>
      fst (expand macros input) = spaced (stream_words input)) \<and>
   ((\<forall>r\<in>ran macros. spaced (stream_words r) = r @ '' '' \<and>
        (\<forall>w\<in>set (stream_words r). macros w = None)) \<longrightarrow>
      fst (expand (snd (expand macros input)) (fst (expand macros input))) =
        fst (expand macros input))"
proof (intro conjI impI)
  assume "\<forall>w\<in>set (stream_words input). macros w = None"
  then have "map (substitute macros) (stream_words input) = stream_words input"
    by (simp add: map_idI substitute_def)
  then show "fst (expand macros input) = spaced (stream_words input)"
    by (simp add: expand_eq)
next
  assume bodies: "\<forall>r\<in>ran macros. spaced (stream_words r) = r @ '' '' \<and>
        (\<forall>w\<in>set (stream_words r). macros w = None)"
  have word: "spaced (map (substitute macros) (stream_words (substitute macros v))) =
      substitute macros v @ '' ''" if v: "v \<in> set (stream_words input)" for v
  proof -
    have "macros w = None" if "w \<in> set (stream_words (substitute macros v))" for w
      using bodies v that by (intro stream_words_substitute [of macros v input w]) auto
    then have "map (substitute macros) (stream_words (substitute macros v)) =
        stream_words (substitute macros v)"
      by (simp add: map_idI substitute_def)
    moreover have "spaced (stream_words (substitute macros v)) = substitute macros v @ '' ''"
    proof (cases "macros v")
      case None
      from v have "stream_words v = [v]"
        using stream_words_props [of v input] by (simp add: stream_words_single)
      with None show ?thesis by (simp add: substitute_def spaced_def)
    next
      case (Some r)
      then have "r \<in> ran macros" by (auto simp: ran_def)
      with Some bodies show ?thesis by (simp add: substitute_def)
    qed
    ultimately show ?thesis by simp
  qed
  have "fst (expand (snd (expand macros input)) (fst (expand macros input))) =
      spaced (map (substitute macros)
        (concat (map stream_words (map (substitute macros) (stream_words input)))))"
    by (simp add: expand_eq stream_words_spaced)
  also have "\<dots> = concat (map (\<lambda>v. spaced (map (substitute macros)
        (stream_words (substitute macros v)))) (stream_words input))"
    by (simp add: map_concat spaced_concat comp_def)
  also have "\<dots> = concat (map (\<lambda>v. substitute macros v @ '' '') (stream_words input))"
    using word by (simp cong: map_cong)
  also have "\<dots> = fst (expand macros input)"
    by (simp add: expand_eq spaced_def comp_def)
  finally show "fst (expand (snd (expand macros input)) (fst (expand macros input))) =
        fst (expand macros input)" .
qed

theorem expand_normalises_witness:
  "fst (expand (loadDefaults Map.empty) [CHR 0x0A, CHR ''y'', CHR '' '', CHR '' '', CHR ''='', CHR 0x09, CHR ''x'', CHR '';'']) = ''y = x; '' \<and>
   fst (expand (snd (expand (loadDefaults Map.empty) ''|inc|  y = x;''))
          (fst (expand (loadDefaults Map.empty) ''|inc|  y = x;''))) =
     fst (expand (loadDefaults Map.empty) ''|inc|  y = x;'')"
proof -
  let ?input = "[CHR 0x0A, CHR ''y'', CHR '' '', CHR '' '', CHR ''='', CHR 0x09, CHR ''x'', CHR '';'']"
  have words: "stream_words ?input = [''y'', ''='', ''x;'']"
    by (simp add: stream_words.simps read_word_def isspace_def)
  then have "\<forall>w\<in>set (stream_words ?input). loadDefaults Map.empty w = None"
    by (simp add: loadDefaults_def define_macro_def)
  with expand_normalises [of ?input "loadDefaults Map.empty"]
  have "fst (expand (loadDefaults Map.empty) ?input) = spaced (stream_words ?input)"
    by blast
  with words have "fst (expand (loadDefaults Map.empty) ?input) = ''y = x; ''"
    by (simp add: spaced_def)
  moreover from expand_normalises [of "''|inc|  y = x;''" "loadDefaults Map.empty"]
    loadDefaults_bodies
  have "fst (expand (snd (expand (loadDefaults Map.empty) ''|inc|  y = x;''))
          (fst (expand (loadDefaults Map.empty) ''|inc|  y = x;''))) =
     fst (expand (loadDefaults Map.empty) ''|inc|  y = x;'')"
    by blast
  ultimately show ?thesis by simp
qed

text \<open>
  C4, as stated, fails: defining \<^verbatim>\<open>|inc|\<close> a second time succeeds and replaces the
  text; expanding a word that looks like a macro but is not defined, or a macro whose
  replacement is its own name, returns a text and no error.
\<close>

theorem macro_errors_counterexample:
  "define_macro ''|inc|'' ''y = 1;'' (loadDefaults Map.empty) ''|inc|'' = Some ''y = 1;'' \<and>
   fst (expand (loadDefaults Map.empty) ''|undefined|'') = ''|undefined| '' \<and>
   fst (expand (define_macro ''|a|'' ''|a|'' Map.empty) ''|a|'') = ''|a| ''"
  by (simp add: macro_eval)

text \<open>
  C4, amended. Macro processing has no failure: defining a name that is already defined
  replaces its text (the last definition wins); a word that is not a defined name is
  copied to the output; a word that is a defined name is replaced by its text, once,
  also when that text names a macro (itself included). The table is left as it was.
\<close>

theorem macro_processing_total:
  "define_macro name r2 (define_macro name r1 macros) = define_macro name r2 macros \<and>
   define_macro name r2 (define_macro name r1 macros) name = Some r2 \<and>
   (stream_words w = [w] \<and> macros w = None \<longrightarrow> expand macros w = (w @ '' '', macros)) \<and>
   (stream_words w = [w] \<and> macros w = Some r \<longrightarrow> expand macros w = (r @ '' '', macros))"
  by (simp add: define_macro_def expand_eq spaced_def substitute_def)

theorem macro_processing_total_witness:
  "expand (loadDefaults Map.empty) ''|undefined|'' = (''|undefined| '', loadDefaults Map.empty) \<and>
   expand (define_macro ''|a|'' ''|a|'' Map.empty) ''|a|'' =
     (''|a| '', define_macro ''|a|'' ''|a|'' Map.empty)"
proof -
  have w1: "stream_words ''|undefined|'' = [''|undefined|'']"
    and w2: "stream_words ''|a|'' = [''|a|'']"
    by (simp_all add: stream_words.simps read_word_def isspace_def)
  have n1: "loadDefaults Map.empty ''|undefined|'' = None"
    and n2: "define_macro ''|a|'' ''|a|'' Map.empty ''|a|'' = Some ''|a|''"
    by (simp_all add: loadDefaults_def define_macro_def)
  from macro_processing_total [of _ _ _ "loadDefaults Map.empty" "''|undefined|''"] w1 n1
  have "expand (loadDefaults Map.empty) ''|undefined|'' = (''|undefined| '', loadDefaults Map.empty)"
    by simp
  moreover
  from macro_processing_total [of _ _ _ "define_macro ''|a|'' ''|a|'' Map.empty" "''|a|''" "''|a|''"]
    w2 n2
  have "expand (define_macro ''|a|'' ''|a|'' Map.empty) ''|a|'' =
     (''|a| '', define_macro ''|a|'' ''|a|'' Map.empty)"
    by simp
  ultimately show ?thesis by simp
qed

section \<open>Properties of the pipeline\<close>

lemma expand_loop_table: "snd (expand_loop macros stream result) = macros"
  by (simp add: expand_loop_eq)

text \<open>
  C8. A run leaves the macro table as it found it, and its result does not depend on
  what the set of the analyzer held before the run (\<^verbatim>\<open>analyze\<close> clears it). So
  a second run on the same source text, started on the table that the first run left and
  on any state of the analyzer, emits the same assembly text as the first, or fails with
  the same error.
\<close>

theorem compile_deterministic:
  "snd (compile lexer ir_ok asm_ok macros declared1 source) = macros \<and>
   fst (compile lexer ir_ok asm_ok macros declared1 source) =
     fst (compile lexer ir_ok asm_ok macros declared2 source) \<and>
   fst (compile lexer ir_ok asm_ok
          (snd (compile lexer ir_ok asm_ok macros declared1 source)) declared2 source) =
     fst (compile lexer ir_ok asm_ok macros declared1 source)"
proof -
  have table: "snd (compile lexer ir_ok asm_ok macros declared source) = macros"
    for declared
    using expand_loop_table [of macros source "[]"]
    by (auto simp: compile_def expand_def split: prod.splits)
  have state: "fst (compile lexer ir_ok asm_ok macros declared1 source) =
      fst (compile lexer ir_ok asm_ok macros declared2 source)"
    by (auto simp: compile_def analyze_def split: prod.splits sum.splits)
  from table [of declared1] state show ?thesis by simp
qed

end
